theory Spec2Isabelle
  imports Complex_Main "HOL-Library.Word"
begin

section \<open>Data model of \<open>anonymize_vid.py\<close>\<close>

text \<open>
  The module holds one function, \<open>anonymize_vid\<close>, that drives a video through face
  detection, recognition and blurring. Everything it does is an effect on the outside
  world (the video capture, the video writer, the file system, the clock, the warning
  and print channels), so the model threads a state that records the effects in the
  order the code performs them, and returns the exception the run raised, if any.

  The detectors, the embedder, the matcher and the drawing routines are imported from
  other modules; they are parameters of the model (the record \<open>env\<close>), taken as
  functions that return normally.
\<close>

text \<open>A decoded frame: rows of pixels, each pixel three 8-bit channels.\<close>

type_synonym pixel = "8 word \<times> 8 word \<times> 8 word"
type_synonym frame = "pixel list list"

text \<open>A directory tree, for \<open>Path(known_faces_loc).rglob('*.jpg')\<close>. The entries of a
  directory are listed in the order the directory scan yields them.\<close>

datatype entry = File string | Dir string "entry list"

text \<open>What \<open>cv2.VideoCapture(src)\<close> finds: the metadata of the container and the frames
  that \<open>cap.read()\<close> yields one after the other.\<close>

record video =
  frame_height :: nat
  frame_width :: nat
  frame_count :: nat
  frames :: "frame list"

text \<open>A numpy float, as far as the summary needs it: \<open>np.mean([])\<close> is \<open>nan\<close> and
  \<open>1 / np.float64(0)\<close> is \<open>inf\<close>; neither raises. Rounding is not modelled.\<close>

datatype npfloat = Finite real | Infinity | NaN

datatype error = AssertionError string | NameError string | ZeroDivisionError

text \<open>The three lines that the profiling summary prints, with the numbers they format.\<close>

datatype report =
    TotalRuntime real nat real
  | AverageDetection npfloat nat npfloat
  | AverageRecognition npfloat nat npfloat

text \<open>The effects. \<open>ReleaseWriter\<close> stands for \<open>out.release()\<close>, an operation the video
  writer offers.\<close>

datatype ('r, 'd) event =
    LoadRetinanet
  | OpenCapture string
  | MkdirParents string
  | OpenWriter string nat "nat \<times> nat"
  | Warn string
  | RgbRead string
  | Detect frame
  | Embed frame "'r list"
  | Recognize "'d list" "'d list"
  | MarkFaces frame "'r list" "bool list option"
  | BlurFaces frame "'r list" "bool list option"
  | ReadFrame "frame option"
  | WriteFrame frame
  | ReleaseCapture
  | ReleaseWriter
  | Print report

text \<open>The collaborators and the outside world. \<open>'r\<close> is a face region, \<open>'d\<close> a face
  descriptor; the function never looks inside either.\<close>

record ('r, 'd) env =
  listdir :: "string \<Rightarrow> entry list"
  videos :: "string \<Rightarrow> video option"
  clock :: "nat \<Rightarrow> real"
  rgb_read :: "string \<Rightarrow> frame"
  detect_faces_ret :: "frame \<Rightarrow> 'r list"
  detect_faces_hc :: "frame \<Rightarrow> 'r list"
  embed_face :: "frame \<Rightarrow> 'r list \<Rightarrow> 'd list"
  recognize_face :: "'d list \<Rightarrow> 'd list \<Rightarrow> bool list"
  mark_faces_cv2 :: "frame \<Rightarrow> 'r list \<Rightarrow> bool list option \<Rightarrow> frame"
  blur_faces :: "frame \<Rightarrow> 'r list \<Rightarrow> bool list option \<Rightarrow> string \<Rightarrow> nat \<times> nat \<Rightarrow> nat \<Rightarrow> frame"

text \<open>The state of a run: the effects so far, the number of \<open>time.time()\<close> calls made,
  and the two profiling lists (which exist only when \<open>profile\<close> is set, and are touched
  only then).\<close>

record ('r, 'd) state =
  events :: "('r, 'd) event list"
  ticks :: nat
  detect_times :: "real list"
  recog_times :: "real list"

definition init_state :: "('r, 'd) state" where
  "init_state = \<lparr>events = [], ticks = 0, detect_times = [], recog_times = []\<rparr>"

definition log :: "('r, 'd) event list \<Rightarrow> ('r, 'd) state \<Rightarrow> ('r, 'd) state" where
  "log es st = st\<lparr>events := events st @ es\<rparr>"

definition time_time :: "('r, 'd) env \<Rightarrow> ('r, 'd) state \<Rightarrow> real \<times> ('r, 'd) state" where
  "time_time env st = (clock env (ticks st), st\<lparr>ticks := Suc (ticks st)\<rparr>)"

section \<open>Strings and paths\<close>

text \<open>\<open>str.lower\<close> on the ASCII letters; no other character lowers to a letter of
  \<open>mov\<close> or \<open>mp4\<close>.\<close>

definition lower_char :: "char \<Rightarrow> char" where
  "lower_char c =
     (case map_of (zip ''ABCDEFGHIJKLMNOPQRSTUVWXYZ'' ''abcdefghijklmnopqrstuvwxyz'') c of
        None \<Rightarrow> c
      | Some l \<Rightarrow> l)"

definition lower :: "string \<Rightarrow> string" where
  "lower s = map lower_char s"

text \<open>\<open>s.split(sep)\<close> for a one-character separator: never the empty list.\<close>

fun split :: "char \<Rightarrow> string \<Rightarrow> string list" where
  "split sep [] = [[]]"
| "split sep (c # cs) =
     (if c = sep then [] # split sep cs
      else (case split sep cs of [] \<Rightarrow> [[c]] | w # ws \<Rightarrow> (c # w) # ws))"

text \<open>\<open>s.split('.')[-1].lower()\<close>, the expression of both assertions.\<close>

definition extension :: "string \<Rightarrow> string" where
  "extension s = lower (last (split CHR ''.'' s))"

text \<open>The pattern \<open>*.jpg\<close> against one name, as a POSIX path matches it: the name ends
  in \<open>.jpg\<close>, letter case included.\<close>

definition match_jpg :: "string \<Rightarrow> bool" where
  "match_jpg name = (4 \<le> length name \<and> drop (length name - 4) name = ''.jpg'')"

fun entry_name :: "entry \<Rightarrow> string" where
  "entry_name (File n) = n"
| "entry_name (Dir n sub) = n"

definition joinpath :: "string \<Rightarrow> string \<Rightarrow> string" where
  "joinpath p n = p @ ''/'' @ n"

text \<open>The directories that \<open>rglob\<close> visits below a directory, depth first, each with its
  path and its entries.\<close>

fun subdirs_entry :: "string \<Rightarrow> entry \<Rightarrow> (string \<times> entry list) list"
  and subdirs :: "string \<Rightarrow> entry list \<Rightarrow> (string \<times> entry list) list" where
  "subdirs_entry p (File n) = []"
| "subdirs_entry p (Dir n sub) = (joinpath p n, sub) # subdirs (joinpath p n) sub"
| "subdirs p [] = []"
| "subdirs p (e # es) = subdirs_entry p e @ subdirs p es"

text \<open>The entries of one directory whose name matches: files and directories alike, as
  the pattern looks at names only.\<close>

definition matches_in :: "string \<times> entry list \<Rightarrow> string list" where
  "matches_in d = map (joinpath (fst d)) (filter match_jpg (map entry_name (snd d)))"

text \<open>\<open>[str(x) for x in Path(loc).rglob('*.jpg')]\<close>: the matches in the directory itself
  first, then those in every directory below it. A path that is no directory has no
  entries. Paths are joined as for a \<open>loc\<close> written without a trailing separator.\<close>

definition rglob_jpg :: "('r, 'd) env \<Rightarrow> string \<Rightarrow> string list" where
  "rglob_jpg env loc =
     concat (map matches_in ((loc, listdir env loc) # subdirs loc (listdir env loc)))"

section \<open>Colour order\<close>

text \<open>Modelled from the spec: \<open>to_rgb\<close> of \<open>pkg_utils\<close>, which is not among the sources.
  The spec's Color-Space Adapter converts a raw frame from the source's native channel
  order to RGB; the native order of a decoded frame is blue, green, red.\<close>

definition to_rgb :: "frame \<Rightarrow> frame" where
  "to_rgb f = map (map (\<lambda>(b, g, r). (r, g, b))) f"

text \<open>\<open>cv2.cvtColor(rgb, cv2.COLOR_RGB2BGR)\<close>: the first and the third channel change
  places.\<close>

definition cvtColor_RGB2BGR :: "frame \<Rightarrow> frame" where
  "cvtColor_RGB2BGR f = map (map (\<lambda>(r, g, b). (b, g, r))) f"

section \<open>The function\<close>

text \<open>Lines 35 and 36: the two assertions.\<close>

definition check_arguments :: "string \<Rightarrow> string \<Rightarrow> error option" where
  "check_arguments src dst =
     (if \<not> List.member [''mov'', ''mp4''] (extension src)
        then Some (AssertionError ''src is not a valid file.'')
      else if extension dst \<noteq> ''mp4''
        then Some (AssertionError ''Output file format must be mp4.'')
      else None)"

text \<open>Lines 43 to 47: the detection function.\<close>

definition select_detector ::
  "('r, 'd) env \<Rightarrow> bool \<Rightarrow> ('r, 'd) state \<Rightarrow> (frame \<Rightarrow> 'r list) \<times> ('r, 'd) state" where
  "select_detector env use_retinanet st =
     (if use_retinanet then (detect_faces_ret env, log [LoadRetinanet] st)
      else (detect_faces_hc env, st))"

text \<open>Lines 50 to 58: the capture, its metadata (0 when the capture did not open), the
  parent directory of \<open>dst\<close> and the writer. The result is the frames the capture will
  yield (\<open>None\<close> when \<open>cap.isOpened()\<close> is false) and \<open>FRAME_COUNT\<close>.\<close>

definition open_streams ::
  "('r, 'd) env \<Rightarrow> string \<Rightarrow> string \<Rightarrow> ('r, 'd) state
     \<Rightarrow> frame list option \<times> nat \<times> ('r, 'd) state" where
  "open_streams env src dst st =
     (let cap = videos env src;
          FRAME_HEIGHT = (case cap of None \<Rightarrow> 0 | Some v \<Rightarrow> frame_height v);
          FRAME_WIDTH = (case cap of None \<Rightarrow> 0 | Some v \<Rightarrow> frame_width v);
          FRAME_COUNT = (case cap of None \<Rightarrow> 0 | Some v \<Rightarrow> frame_count v)
      in (map_option frames cap, FRAME_COUNT,
          log [OpenCapture src, MkdirParents dst,
               OpenWriter dst 30 (FRAME_WIDTH, FRAME_HEIGHT)] st))"

text \<open>Lines 69 to 72: the loop over the reference images. The second component is the
  variable \<open>recognized_face_encs\<close>, \<open>None\<close> while it is unbound.\<close>

fun create_face_encodings ::
  "('r, 'd) env \<Rightarrow> (frame \<Rightarrow> 'r list) \<Rightarrow> string list
     \<Rightarrow> ('r, 'd) state \<times> 'd list option \<Rightarrow> ('r, 'd) state \<times> 'd list option" where
  "create_face_encodings env detect_fn [] acc = acc"
| "create_face_encodings env detect_fn (filepath # rest) (st, recognized_face_encs) =
     (let face_rgb = rgb_read env filepath;
          face_loc = detect_fn face_rgb
      in create_face_encodings env detect_fn rest
           (log [RgbRead filepath, Detect face_rgb, Embed face_rgb face_loc] st,
            Some (embed_face env face_rgb face_loc)))"

text \<open>Lines 61 to 72: \<open>perform_face_rec\<close>, \<open>recognized_face_encs\<close> and the state.\<close>

definition encode_known_faces ::
  "('r, 'd) env \<Rightarrow> (frame \<Rightarrow> 'r list) \<Rightarrow> string option \<Rightarrow> ('r, 'd) state
     \<Rightarrow> bool \<times> 'd list option \<times> ('r, 'd) state" where
  "encode_known_faces env detect_fn known_faces_loc st =
     (case known_faces_loc of
        None \<Rightarrow> (False, None, st)
      | Some loc \<Rightarrow>
          (let known_faces = rglob_jpg env loc
           in if length known_faces = 0
              then (False, None,
                    log [Warn ''[WARNING] known_faces_loc contains no faces. JPG files only.''] st)
              else (case create_face_encodings env detect_fn known_faces (st, None) of
                      (st', encs) \<Rightarrow> (True, encs, st'))))"

text \<open>Lines 87 to 92: detection, timed when profiling.\<close>

definition detect_step ::
  "('r, 'd) env \<Rightarrow> (frame \<Rightarrow> 'r list) \<Rightarrow> bool \<Rightarrow> frame \<Rightarrow> ('r, 'd) state
     \<Rightarrow> 'r list \<times> ('r, 'd) state" where
  "detect_step env detect_fn profile rgb st =
     (if profile then
        (case time_time env st of (detect_start, st1) \<Rightarrow>
           (case time_time env (log [Detect rgb] st1) of (now, st2) \<Rightarrow>
              (detect_fn rgb, st2\<lparr>detect_times := detect_times st2 @ [now - detect_start]\<rparr>)))
      else (detect_fn rgb, log [Detect rgb] st))"

text \<open>Lines 97 to 105: embedding and matching, timed when profiling. Reading
  \<open>recognized_face_encs\<close> while it is unbound raises.\<close>

definition recognize_step ::
  "('r, 'd) env \<Rightarrow> bool \<Rightarrow> 'd list option \<Rightarrow> frame \<Rightarrow> 'r list \<Rightarrow> ('r, 'd) state
     \<Rightarrow> error + (bool list \<times> ('r, 'd) state)" where
  "recognize_step env profile recognized_face_encs rgb preds st =
     (case recognized_face_encs of
        None \<Rightarrow> Inl (NameError ''recognized_face_encs'')
      | Some gallery \<Rightarrow>
          (let face_encs = embed_face env rgb preds;
               recognized = recognize_face env face_encs gallery;
               calls = [Embed rgb preds, Recognize face_encs gallery]
           in if profile then
                (case time_time env st of (recog_start, st1) \<Rightarrow>
                   (case time_time env (log calls st1) of (now, st2) \<Rightarrow>
                      Inr (recognized, st2\<lparr>recog_times := recog_times st2 @ [now - recog_start]\<rparr>)))
              else Inr (recognized, log calls st)))"

text \<open>Lines 81 to 114, for a read that returned a frame: one pass through the body of
  the loop.\<close>

definition process_frame ::
  "('r, 'd) env \<Rightarrow> (frame \<Rightarrow> 'r list) \<Rightarrow> bool \<Rightarrow> bool \<Rightarrow> 'd list option
     \<Rightarrow> ('r, 'd) state \<Rightarrow> frame \<Rightarrow> ('r, 'd) state \<times> error option" where
  "process_frame env detect_fn profile perform_face_rec recognized_face_encs st frame =
     (let rgb = to_rgb frame
      in case detect_step env detect_fn profile rgb (log [ReadFrame (Some frame)] st) of
           (preds, st1) \<Rightarrow>
             if length preds \<noteq> 0 then
               (case (if perform_face_rec
                      then map_sum id (\<lambda>(recognized, s). (Some recognized, s))
                             (recognize_step env profile recognized_face_encs rgb preds st1)
                      else Inr (None, st1)) of
                  Inl e \<Rightarrow> (st1, Some e)
                | Inr (recognized, st2) \<Rightarrow>
                    (let marked = mark_faces_cv2 env rgb preds recognized;
                         blurred = blur_faces env marked preds recognized ''gaussian'' (25, 25) 25
                     in (log [MarkFaces rgb preds recognized,
                              BlurFaces marked preds recognized,
                              WriteFrame (cvtColor_RGB2BGR blurred)] st2, None)))
             else (log [WriteFrame (cvtColor_RGB2BGR rgb)] st1, None))"

text \<open>Lines 80 to 82: the loop runs until a read returns no frame.\<close>

fun video_loop ::
  "('r, 'd) env \<Rightarrow> (frame \<Rightarrow> 'r list) \<Rightarrow> bool \<Rightarrow> bool \<Rightarrow> 'd list option
     \<Rightarrow> ('r, 'd) state \<Rightarrow> frame list \<Rightarrow> ('r, 'd) state \<times> error option" where
  "video_loop env detect_fn profile perform_face_rec encs st [] =
     (log [ReadFrame None] st, None)"
| "video_loop env detect_fn profile perform_face_rec encs st (frame # rest) =
     (case process_frame env detect_fn profile perform_face_rec encs st frame of
        (st', Some e) \<Rightarrow> (st', Some e)
      | (st', None) \<Rightarrow> video_loop env detect_fn profile perform_face_rec encs st' rest)"

text \<open>\<open>np.mean\<close> of a list of floats and \<open>1 / x\<close> for a numpy float \<open>x\<close>.\<close>

definition np_mean :: "real list \<Rightarrow> npfloat" where
  "np_mean xs = (if xs = [] then NaN else Finite (sum_list xs / real (length xs)))"

fun np_reciprocal :: "npfloat \<Rightarrow> npfloat" where
  "np_reciprocal (Finite x) = (if x = 0 then Infinity else Finite (1 / x))"
| "np_reciprocal Infinity = Finite 0"
| "np_reciprocal NaN = NaN"

text \<open>Lines 118 to 125: the summary. The first line divides two Python numbers, which
  raises when the divisor is zero.\<close>

definition summarize ::
  "('r, 'd) env \<Rightarrow> real \<Rightarrow> nat \<Rightarrow> ('r, 'd) state \<Rightarrow> ('r, 'd) state \<times> error option" where
  "summarize env start_time FRAME_COUNT st =
     (case time_time env st of (end_time, st1) \<Rightarrow>
        if end_time - start_time = 0 then (st1, Some ZeroDivisionError)
        else
          (log [Print (TotalRuntime (end_time - start_time) FRAME_COUNT
                         (real FRAME_COUNT / (end_time - start_time))),
                Print (AverageDetection (np_mean (detect_times st1)) (length (detect_times st1))
                         (np_reciprocal (np_mean (detect_times st1)))),
                Print (AverageRecognition (np_mean (recog_times st1)) (length (recog_times st1))
                         (np_reciprocal (np_mean (recog_times st1))))] st1, None))"

text \<open>The whole function. \<open>batch_size\<close> is a parameter that the body never reads.\<close>

definition anonymize_vid ::
  "('r, 'd) env \<Rightarrow> string \<Rightarrow> string \<Rightarrow> string option \<Rightarrow> bool \<Rightarrow> int \<Rightarrow> bool
     \<Rightarrow> ('r, 'd) state \<times> error option" where
  "anonymize_vid env src dst known_faces_loc use_retinanet batch_size profile =
     (case check_arguments src dst of
        Some e \<Rightarrow> (init_state, Some e)
      | None \<Rightarrow>
          (case (if profile then time_time env init_state else (0, init_state)) of
             (start_time, st0) \<Rightarrow>
          (case select_detector env use_retinanet st0 of (detect_fn, st1) \<Rightarrow>
          (case open_streams env src dst st1 of (cap, FRAME_COUNT, st2) \<Rightarrow>
          (case encode_known_faces env detect_fn known_faces_loc st2 of
             (perform_face_rec, recognized_face_encs, st3) \<Rightarrow>
          (case (case cap of
                   None \<Rightarrow> (st3, None)
                 | Some fs \<Rightarrow>
                     video_loop env detect_fn profile perform_face_rec recognized_face_encs st3 fs) of
             (st4, Some e) \<Rightarrow> (st4, Some e)
           | (st4, None) \<Rightarrow>
               (let st5 = log [ReleaseCapture] st4
                in if profile then summarize env start_time FRAME_COUNT st5
                   else (st5, None))))))))"

section \<open>Reading a trace\<close>

text \<open>Each reader keeps the events of one kind, in order, with the arguments that matter.\<close>

fun written_frame :: "('r, 'd) event \<Rightarrow> frame list" where
  "written_frame (WriteFrame f) = [f]"
| "written_frame _ = []"

fun read_frame :: "('r, 'd) event \<Rightarrow> frame list" where
  "read_frame (ReadFrame (Some f)) = [f]"
| "read_frame _ = []"

fun embed_call :: "('r, 'd) event \<Rightarrow> 'r list list" where
  "embed_call (Embed f regions) = [regions]"
| "embed_call _ = []"

fun recognize_call :: "('r, 'd) event \<Rightarrow> ('d list \<times> 'd list) list" where
  "recognize_call (Recognize face_encs known) = [(face_encs, known)]"
| "recognize_call _ = []"

fun blur_call :: "('r, 'd) event \<Rightarrow> ('r list \<times> bool list option) list" where
  "blur_call (BlurFaces f regions recognized) = [(regions, recognized)]"
| "blur_call _ = []"

fun mark_call :: "('r, 'd) event \<Rightarrow> ('r list \<times> bool list option) list" where
  "mark_call (MarkFaces f regions recognized) = [(regions, recognized)]"
| "mark_call _ = []"

fun release_call :: "('r, 'd) event \<Rightarrow> ('r, 'd) event list" where
  "release_call ReleaseCapture = [ReleaseCapture]"
| "release_call ReleaseWriter = [ReleaseWriter]"
| "release_call _ = []"

fun warning :: "('r, 'd) event \<Rightarrow> string list" where
  "warning (Warn msg) = [msg]"
| "warning _ = []"

fun recognition_report :: "('r, 'd) event \<Rightarrow> (npfloat \<times> nat \<times> npfloat) list" where
  "recognition_report (Print (AverageRecognition m n fps)) = [(m, n, fps)]"
| "recognition_report _ = []"

definition written_frames :: "('r, 'd) event list \<Rightarrow> frame list" where
  "written_frames evs = concat (map written_frame evs)"

definition read_frames :: "('r, 'd) event list \<Rightarrow> frame list" where
  "read_frames evs = concat (map read_frame evs)"

definition embed_calls :: "('r, 'd) event list \<Rightarrow> 'r list list" where
  "embed_calls evs = concat (map embed_call evs)"

definition recognize_calls :: "('r, 'd) event list \<Rightarrow> ('d list \<times> 'd list) list" where
  "recognize_calls evs = concat (map recognize_call evs)"

definition blur_calls :: "('r, 'd) event list \<Rightarrow> ('r list \<times> bool list option) list" where
  "blur_calls evs = concat (map blur_call evs)"

definition mark_calls :: "('r, 'd) event list \<Rightarrow> ('r list \<times> bool list option) list" where
  "mark_calls evs = concat (map mark_call evs)"

definition release_calls :: "('r, 'd) event list \<Rightarrow> ('r, 'd) event list" where
  "release_calls evs = concat (map release_call evs)"

definition warnings :: "('r, 'd) event list \<Rightarrow> string list" where
  "warnings evs = concat (map warning evs)"

definition recognition_reports :: "('r, 'd) event list \<Rightarrow> (npfloat \<times> nat \<times> npfloat) list" where
  "recognition_reports evs = concat (map recognition_report evs)"

section \<open>The inputs and the phases of a run\<close>

text \<open>The detector that lines 43 to 47 select.\<close>

definition detector :: "('r, 'd) env \<Rightarrow> bool \<Rightarrow> frame \<Rightarrow> 'r list" where
  "detector env use_retinanet = (if use_retinanet then detect_faces_ret env else detect_faces_hc env)"

text \<open>The list \<open>known_faces\<close> of line 63, empty when no directory is given.\<close>

definition known_faces :: "('r, 'd) env \<Rightarrow> string option \<Rightarrow> string list" where
  "known_faces env known_faces_loc =
     (case known_faces_loc of None \<Rightarrow> [] | Some loc \<Rightarrow> rglob_jpg env loc)"

text \<open>The frames that the capture of \<open>src\<close> yields.\<close>

definition source_frames :: "('r, 'd) env \<Rightarrow> string \<Rightarrow> frame list" where
  "source_frames env src = (case videos env src of None \<Rightarrow> [] | Some v \<Rightarrow> frames v)"

text \<open>The detector finds at least one face on a frame.\<close>

definition faces_in :: "(frame \<Rightarrow> 'r list) \<Rightarrow> frame \<Rightarrow> bool" where
  "faces_in detect_fn frame = (detect_fn (to_rgb frame) \<noteq> [])"

text \<open>What lines 70 to 72 compute and do for one reference image.\<close>

definition reference_encoding :: "('r, 'd) env \<Rightarrow> (frame \<Rightarrow> 'r list) \<Rightarrow> string \<Rightarrow> 'd list" where
  "reference_encoding env detect_fn filepath =
     embed_face env (rgb_read env filepath) (detect_fn (rgb_read env filepath))"

definition reference_events ::
  "('r, 'd) env \<Rightarrow> (frame \<Rightarrow> 'r list) \<Rightarrow> string \<Rightarrow> ('r, 'd) event list" where
  "reference_events env detect_fn filepath =
     [RgbRead filepath, Detect (rgb_read env filepath),
      Embed (rgb_read env filepath) (detect_fn (rgb_read env filepath))]"

text \<open>The effects of lines 61 to 72, and the encodings that the loop over the frames
  matches against (\<open>None\<close> when \<open>perform_face_rec\<close> stays false).\<close>

definition gallery_events ::
  "('r, 'd) env \<Rightarrow> (frame \<Rightarrow> 'r list) \<Rightarrow> string option \<Rightarrow> ('r, 'd) event list" where
  "gallery_events env detect_fn known_faces_loc =
     (case known_faces_loc of
        None \<Rightarrow> []
      | Some loc \<Rightarrow>
          if rglob_jpg env loc = []
          then [Warn ''[WARNING] known_faces_loc contains no faces. JPG files only.'']
          else concat (map (reference_events env detect_fn) (rglob_jpg env loc)))"

definition gallery ::
  "('r, 'd) env \<Rightarrow> (frame \<Rightarrow> 'r list) \<Rightarrow> string option \<Rightarrow> 'd list option" where
  "gallery env detect_fn known_faces_loc =
     (if known_faces env known_faces_loc = [] then None
      else Some (reference_encoding env detect_fn (last (known_faces env known_faces_loc))))"

definition matching :: "bool \<Rightarrow> 'd list option \<Rightarrow> 'd list option" where
  "matching perform_face_rec encs = (if perform_face_rec then encs else None)"

text \<open>One frame: the value of \<open>recognized\<close> handed to the drawing routines, the frame
  written, and the effects.\<close>

definition frame_recognized ::
  "('r, 'd) env \<Rightarrow> (frame \<Rightarrow> 'r list) \<Rightarrow> 'd list option \<Rightarrow> frame \<Rightarrow> bool list option" where
  "frame_recognized env detect_fn encs frame =
     map_option (recognize_face env (embed_face env (to_rgb frame) (detect_fn (to_rgb frame)))) encs"

definition output_frame ::
  "('r, 'd) env \<Rightarrow> (frame \<Rightarrow> 'r list) \<Rightarrow> 'd list option \<Rightarrow> frame \<Rightarrow> frame" where
  "output_frame env detect_fn encs frame =
     (let rgb = to_rgb frame; preds = detect_fn rgb;
          recognized = frame_recognized env detect_fn encs frame
      in if preds = [] then cvtColor_RGB2BGR rgb
         else cvtColor_RGB2BGR
                (blur_faces env (mark_faces_cv2 env rgb preds recognized) preds recognized
                   ''gaussian'' (25, 25) 25))"

definition frame_events ::
  "('r, 'd) env \<Rightarrow> (frame \<Rightarrow> 'r list) \<Rightarrow> 'd list option \<Rightarrow> frame \<Rightarrow> ('r, 'd) event list" where
  "frame_events env detect_fn encs frame =
     (let rgb = to_rgb frame; preds = detect_fn rgb;
          recognized = frame_recognized env detect_fn encs frame
      in [ReadFrame (Some frame), Detect rgb] @
         (if preds = [] then []
          else (case encs of
                  None \<Rightarrow> []
                | Some g \<Rightarrow> [Embed rgb preds, Recognize (embed_face env rgb preds) g]) @
               [MarkFaces rgb preds recognized,
                BlurFaces (mark_faces_cv2 env rgb preds recognized) preds recognized]) @
         [WriteFrame (output_frame env detect_fn encs frame)])"

definition opening_events ::
  "('r, 'd) env \<Rightarrow> string \<Rightarrow> string \<Rightarrow> bool \<Rightarrow> ('r, 'd) event list" where
  "opening_events env src dst use_retinanet =
     (if use_retinanet then [LoadRetinanet] else []) @
     [OpenCapture src, MkdirParents dst,
      OpenWriter dst 30
        (case videos env src of None \<Rightarrow> (0, 0) | Some v \<Rightarrow> (frame_width v, frame_height v))]"

definition loop_events ::
  "('r, 'd) env \<Rightarrow> (frame \<Rightarrow> 'r list) \<Rightarrow> 'd list option \<Rightarrow> string \<Rightarrow> ('r, 'd) event list" where
  "loop_events env detect_fn encs src =
     (case videos env src of
        None \<Rightarrow> []
      | Some v \<Rightarrow> concat (map (frame_events env detect_fn encs) (frames v)) @ [ReadFrame None])"

text \<open>The state after line 40 and the state after line 115.\<close>

definition started :: "('r, 'd) env \<Rightarrow> bool \<Rightarrow> ('r, 'd) state" where
  "started env p = (if p then snd (time_time env init_state) else init_state)"

definition released ::
  "('r, 'd) env \<Rightarrow> string \<Rightarrow> string \<Rightarrow> string option \<Rightarrow> bool \<Rightarrow> bool \<Rightarrow> ('r, 'd) state" where
  "released env src dst k u p =
     log [ReleaseCapture]
       (case videos env src of
          None \<Rightarrow> log (opening_events env src dst u @ gallery_events env (detector env u) k) (started env p)
        | Some v \<Rightarrow>
            fst (video_loop env (detector env u) p (known_faces env k \<noteq> [])
                   (gallery env (detector env u) k)
                   (log (opening_events env src dst u @ gallery_events env (detector env u) k)
                      (started env p))
                   (frames v)))"

text \<open>Every entry below a directory, at any depth, with its path and its name.\<close>

fun entries_below_entry :: "string \<Rightarrow> entry \<Rightarrow> (string \<times> string) list"
  and entries_below :: "string \<Rightarrow> entry list \<Rightarrow> (string \<times> string) list" where
  "entries_below_entry p (File n) = [(joinpath p n, n)]"
| "entries_below_entry p (Dir n sub) = (joinpath p n, n) # entries_below (joinpath p n) sub"
| "entries_below p [] = []"
| "entries_below p (e # es) = entries_below_entry p e @ entries_below p es"

section \<open>A small world to run the function in\<close>

text \<open>Three directories of reference images (\<open>faces\<close> holds two JPG images, one of them in
  a subdirectory; \<open>others\<close> holds images with other extensions; \<open>blank\<close> holds one JPG
  image without a face), one video of two one-pixel frames, a neural detector that
  finds a face on the first frame and on the two images of \<open>faces\<close>, and a cascade
  detector that finds none.\<close>

definition demo_env :: "(nat, nat) env" where
  "demo_env =
     \<lparr>listdir = (\<lambda>p. if p = ''faces'' then [File ''a.jpg'', Dir ''more'' [File ''b.jpg'', File ''c.JPG'']]
                     else if p = ''others'' then [File ''a.JPG'', File ''b.jpeg'', Dir ''sub'' [File ''c.png'']]
                     else if p = ''blank'' then [File ''wall.jpg'']
                     else []),
      videos = (\<lambda>s. if s = ''in.mp4''
                    then Some \<lparr>frame_height = 1, frame_width = 1, frame_count = 2,
                               frames = [[[(1, 2, 3)]], [[(4, 5, 6)]]]\<rparr>
                    else None),
      clock = (\<lambda>n. real n),
      rgb_read = (\<lambda>p. if p = ''faces/a.jpg'' then [[(10, 10, 10)]]
                      else if p = ''faces/more/b.jpg'' then [[(20, 20, 20)]]
                      else [[(0, 0, 0)]]),
      detect_faces_ret = (\<lambda>f. if f = [[(3, 2, 1)]] then [7]
                              else if f = [[(10, 10, 10)]] then [1]
                              else if f = [[(20, 20, 20)]] then [2]
                              else []),
      detect_faces_hc = (\<lambda>f. []),
      embed_face = (\<lambda>f rs. map (\<lambda>r. r + 100) rs),
      recognize_face = (\<lambda>qs g. map (\<lambda>q. List.member g q) qs),
      mark_faces_cv2 = (\<lambda>f rs m. f),
      blur_faces = (\<lambda>f rs m mode k s. map (map (\<lambda>px. (0, 0, 0))) f)\<rparr>"

section \<open>The phases, in closed form\<close>

lemma log_Nil [simp]: "log [] st = st"
  by (simp add: log_def)

lemma log_log [simp]: "log es (log ds st) = log (ds @ es) st"
  by (simp add: log_def)

lemma log_fields [simp]:
  "events (log es st) = events st @ es"
  "ticks (log es st) = ticks st"
  "detect_times (log es st) = detect_times st"
  "recog_times (log es st) = recog_times st"
  by (simp_all add: log_def)

lemma select_detector_eq:
  "select_detector env u st = (detector env u, log (if u then [LoadRetinanet] else []) st)"
  by (simp add: select_detector_def detector_def)

lemma open_streams_eq:
  "open_streams env src dst st =
     (map_option frames (videos env src),
      (case videos env src of None \<Rightarrow> 0 | Some v \<Rightarrow> frame_count v),
      log [OpenCapture src, MkdirParents dst,
           OpenWriter dst 30
             (case videos env src of None \<Rightarrow> (0, 0) | Some v \<Rightarrow> (frame_width v, frame_height v))] st)"
  by (simp add: open_streams_def Let_def split: option.splits)

lemma create_face_encodings_eq:
  "create_face_encodings env d fs (st, acc) =
     (log (concat (map (reference_events env d) fs)) st,
      if fs = [] then acc else Some (reference_encoding env d (last fs)))"
proof (induction fs arbitrary: st acc)
  case Nil
  show ?case by simp
next
  case (Cons f fs)
  show ?case
    by (simp add: Cons.IH Let_def reference_events_def reference_encoding_def)
qed

lemma encode_known_faces_eq:
  "encode_known_faces env d k st =
     (known_faces env k \<noteq> [], gallery env d k, log (gallery_events env d k) st)"
  by (cases k)
     (simp_all add: encode_known_faces_def known_faces_def gallery_def gallery_events_def
        create_face_encodings_eq Let_def)

lemma gallery_present: "known_faces env k \<noteq> [] \<Longrightarrow> gallery env d k \<noteq> None"
  by (simp add: gallery_def)


text \<open>One frame.\<close>

lemma process_frame_result:
  assumes "pfr \<longrightarrow> encs \<noteq> None"
  shows "snd (process_frame env d p pfr encs st f) = None
       \<and> events (fst (process_frame env d p pfr encs st f)) =
           events st @ frame_events env d (matching pfr encs) f
       \<and> ticks st \<le> ticks (fst (process_frame env d p pfr encs st f))
       \<and> length (recog_times (fst (process_frame env d p pfr encs st f))) =
           length (recog_times st) + (if p \<and> pfr \<and> faces_in d f then 1 else 0)
       \<and> length (detect_times (fst (process_frame env d p pfr encs st f))) =
           length (detect_times st) + (if p then 1 else 0)"
  using assms
  by (auto simp add: process_frame_def detect_step_def recognize_step_def time_time_def Let_def
        frame_events_def output_frame_def frame_recognized_def matching_def faces_in_def
        split: prod.splits option.splits sum.splits)

text \<open>The loop.\<close>

lemma video_loop_result:
  assumes "pfr \<longrightarrow> encs \<noteq> None"
  shows "snd (video_loop env d p pfr encs st fs) = None
       \<and> events (fst (video_loop env d p pfr encs st fs)) =
           events st @ concat (map (frame_events env d (matching pfr encs)) fs) @ [ReadFrame None]
       \<and> ticks st \<le> ticks (fst (video_loop env d p pfr encs st fs))
       \<and> length (recog_times (fst (video_loop env d p pfr encs st fs))) =
           length (recog_times st) +
           (if p \<and> pfr then length (filter (faces_in d) fs) else 0)
       \<and> length (detect_times (fst (video_loop env d p pfr encs st fs))) =
           length (detect_times st) + (if p then length fs else 0)"
proof (induction fs arbitrary: st)
  case Nil
  show ?case by simp
next
  case (Cons f fs)
  note one = process_frame_result [OF assms, of env d p st f]
  obtain st' where step: "process_frame env d p pfr encs st f = (st', None)"
    using one by (cases "process_frame env d p pfr encs st f") simp
  have loop: "video_loop env d p pfr encs st (f # fs) = video_loop env d p pfr encs st' fs"
    using step by simp
  show ?case
    unfolding loop using Cons.IH [of st'] one step by simp
qed

lemma loop_gallery:
  "snd (video_loop env d p (known_faces env k \<noteq> []) (gallery env d k) st fs) = None"
  "events (fst (video_loop env d p (known_faces env k \<noteq> []) (gallery env d k) st fs)) =
     events st @ concat (map (frame_events env d (gallery env d k)) fs) @ [ReadFrame None]"
  "ticks st \<le> ticks (fst (video_loop env d p (known_faces env k \<noteq> []) (gallery env d k) st fs))"
  "length (recog_times (fst (video_loop env d p (known_faces env k \<noteq> []) (gallery env d k) st fs))) =
     length (recog_times st) +
     (if p \<and> known_faces env k \<noteq> [] then length (filter (faces_in d) fs) else 0)"
  "length (detect_times (fst (video_loop env d p (known_faces env k \<noteq> []) (gallery env d k) st fs))) =
     length (detect_times st) + (if p then length fs else 0)"
  using video_loop_result [of "known_faces env k \<noteq> []" "gallery env d k" env d p st fs]
  by (simp_all add: gallery_def matching_def)

lemma loop_gallery_case:
  "(case video_loop env d p (known_faces env k \<noteq> []) (gallery env d k) st fs of
      (st4, None) \<Rightarrow> B st4
    | (st4, Some e) \<Rightarrow> A st4 e) =
   B (fst (video_loop env d p (known_faces env k \<noteq> []) (gallery env d k) st fs))"
  using loop_gallery(1) [of env d p k st fs]
  by (cases "video_loop env d p (known_faces env k \<noteq> []) (gallery env d k) st fs") simp

text \<open>The summary.\<close>

lemma summarize_events:
  "\<exists>ps. events (fst (summarize env t n st)) = events st @ map Print ps"
proof (cases "clock env (ticks st) - t = 0")
  case True
  then have "events (fst (summarize env t n st)) = events st @ map Print []"
    by (simp add: summarize_def time_time_def)
  then show ?thesis by blast
next
  case False
  then have "events (fst (summarize env t n st)) = events st @ map Print
      [TotalRuntime (clock env (ticks st) - t) n (real n / (clock env (ticks st) - t)),
       AverageDetection (np_mean (detect_times st)) (length (detect_times st))
         (np_reciprocal (np_mean (detect_times st))),
       AverageRecognition (np_mean (recog_times st)) (length (recog_times st))
         (np_reciprocal (np_mean (recog_times st)))]"
    by (simp add: summarize_def time_time_def)
  then show ?thesis by blast
qed



lemma anonymize_vid_valid:
  assumes "check_arguments src dst = None"
  shows "anonymize_vid env src dst k u b p =
           (if p then summarize env (clock env 0)
                       (case videos env src of None \<Rightarrow> 0 | Some v \<Rightarrow> frame_count v)
                       (released env src dst k u p)
            else (released env src dst k u p, None))"
proof -
  have start: "(if p then time_time env init_state else (0, init_state)) =
                 ((if p then clock env 0 else 0), started env p)"
    by (simp add: started_def time_time_def init_state_def)
  show ?thesis
    unfolding anonymize_vid_def assms start select_detector_eq open_streams_eq
      encode_known_faces_eq
    by (cases "videos env src")
       (simp_all add: opening_events_def released_def loop_gallery_case Let_def)
qed

lemma released_events:
  "events (released env src dst k u p) =
     events (started env p) @ opening_events env src dst u @ gallery_events env (detector env u) k @
     loop_events env (detector env u) (gallery env (detector env u) k) src @ [ReleaseCapture]"
  by (cases "videos env src") (simp_all add: released_def loop_events_def loop_gallery)

lemma started_events [simp]: "events (started env p) = []"
  by (simp add: started_def time_time_def init_state_def)

lemma run_events:
  assumes "check_arguments src dst = None"
  shows "\<exists>ps. events (fst (anonymize_vid env src dst k u b p)) =
           opening_events env src dst u @ gallery_events env (detector env u) k @
           loop_events env (detector env u) (gallery env (detector env u) k) src @
           [ReleaseCapture] @ map Print ps"
proof (cases p)
  case True
  obtain ps where "events (fst (summarize env (clock env 0)
                       (case videos env src of None \<Rightarrow> 0 | Some v \<Rightarrow> frame_count v)
                       (released env src dst k u p))) = events (released env src dst k u p) @ map Print ps"
    using summarize_events by blast
  then have "events (fst (anonymize_vid env src dst k u b p)) =
           opening_events env src dst u @ gallery_events env (detector env u) k @
           loop_events env (detector env u) (gallery env (detector env u) k) src @
           [ReleaseCapture] @ map Print ps"
    using True by (simp add: anonymize_vid_valid [OF assms] released_events)
  then show ?thesis by blast
next
  case False
  then have "events (fst (anonymize_vid env src dst k u b p)) =
           opening_events env src dst u @ gallery_events env (detector env u) k @
           loop_events env (detector env u) (gallery env (detector env u) k) src @
           [ReleaseCapture] @ map Print []"
    by (simp add: anonymize_vid_valid [OF assms] released_events)
  then show ?thesis by blast
qed

lemma run_invalid:
  assumes "check_arguments src dst = Some e"
  shows "anonymize_vid env src dst k u b p = (init_state, Some e)"
  using assms by (simp add: anonymize_vid_def)


section \<open>Traces, read\<close>

lemma read_append [simp]:
  "written_frames (xs @ ys) = written_frames xs @ written_frames ys"
  "read_frames (xs @ ys) = read_frames xs @ read_frames ys"
  "embed_calls (xs @ ys) = embed_calls xs @ embed_calls ys"
  "recognize_calls (xs @ ys) = recognize_calls xs @ recognize_calls ys"
  "blur_calls (xs @ ys) = blur_calls xs @ blur_calls ys"
  "mark_calls (xs @ ys) = mark_calls xs @ mark_calls ys"
  by (simp_all add: written_frames_def read_frames_def embed_calls_def recognize_calls_def
        blur_calls_def mark_calls_def)

lemma read_Nil [simp]:
  "written_frames [] = []" "read_frames [] = []" "embed_calls [] = []"
  "recognize_calls [] = []" "blur_calls [] = []" "mark_calls [] = []"
  by (simp_all add: written_frames_def read_frames_def embed_calls_def recognize_calls_def
        blur_calls_def mark_calls_def)

lemma read_Cons [simp]:
  "written_frames (e # es) = written_frame e @ written_frames es"
  "read_frames (e # es) = read_frame e @ read_frames es"
  "embed_calls (e # es) = embed_call e @ embed_calls es"
  "recognize_calls (e # es) = recognize_call e @ recognize_calls es"
  "blur_calls (e # es) = blur_call e @ blur_calls es"
  "mark_calls (e # es) = mark_call e @ mark_calls es"
  by (simp_all add: written_frames_def read_frames_def embed_calls_def recognize_calls_def
        blur_calls_def mark_calls_def)

lemma read_prints [simp]:
  "written_frames (map Print ps) = []" "read_frames (map Print ps) = []"
  "embed_calls (map Print ps) = []" "recognize_calls (map Print ps) = []"
  "blur_calls (map Print ps) = []" "mark_calls (map Print ps) = []"
  by (induction ps) simp_all

lemma read_opening [simp]:
  "written_frames (opening_events env src dst u) = []"
  "read_frames (opening_events env src dst u) = []"
  "embed_calls (opening_events env src dst u) = []"
  "recognize_calls (opening_events env src dst u) = []"
  "blur_calls (opening_events env src dst u) = []"
  "mark_calls (opening_events env src dst u) = []"
  by (simp_all add: opening_events_def)

lemma read_references:
  "written_frames (concat (map (reference_events env d) fs)) = []"
  "read_frames (concat (map (reference_events env d) fs)) = []"
  "embed_calls (concat (map (reference_events env d) fs)) = map (\<lambda>p. d (rgb_read env p)) fs"
  "recognize_calls (concat (map (reference_events env d) fs)) = []"
  "blur_calls (concat (map (reference_events env d) fs)) = []"
  "mark_calls (concat (map (reference_events env d) fs)) = []"
  by (induction fs) (simp_all add: reference_events_def)

lemma read_gallery [simp]:
  "written_frames (gallery_events env d k) = []"
  "read_frames (gallery_events env d k) = []"
  "embed_calls (gallery_events env d k) = map (\<lambda>p. d (rgb_read env p)) (known_faces env k)"
  "recognize_calls (gallery_events env d k) = []"
  "blur_calls (gallery_events env d k) = []"
  "mark_calls (gallery_events env d k) = []"
  by (cases k; simp add: gallery_events_def known_faces_def read_references)+

lemma read_frame_events:
  "written_frames (frame_events env d g f) = [output_frame env d g f]"
  "read_frames (frame_events env d g f) = [f]"
  "embed_calls (frame_events env d g f) =
     (if faces_in d f \<and> g \<noteq> None then [d (to_rgb f)] else [])"
  "recognize_calls (frame_events env d g f) =
     (case g of
        None \<Rightarrow> []
      | Some gl \<Rightarrow> if faces_in d f then [(embed_face env (to_rgb f) (d (to_rgb f)), gl)] else [])"
  "blur_calls (frame_events env d g f) =
     (if faces_in d f then [(d (to_rgb f), frame_recognized env d g f)] else [])"
  "mark_calls (frame_events env d g f) =
     (if faces_in d f then [(d (to_rgb f), frame_recognized env d g f)] else [])"
  by (simp_all add: frame_events_def faces_in_def Let_def split: option.splits)

lemma read_frames_events:
  "written_frames (concat (map (frame_events env d g) fs)) = map (output_frame env d g) fs"
  "read_frames (concat (map (frame_events env d g) fs)) = fs"
  "embed_calls (concat (map (frame_events env d g) fs)) =
     (if g = None then [] else map (\<lambda>f. d (to_rgb f)) (filter (faces_in d) fs))"
  "recognize_calls (concat (map (frame_events env d g) fs)) =
     (case g of
        None \<Rightarrow> []
      | Some gl \<Rightarrow> map (\<lambda>f. (embed_face env (to_rgb f) (d (to_rgb f)), gl)) (filter (faces_in d) fs))"
  "blur_calls (concat (map (frame_events env d g) fs)) =
     map (\<lambda>f. (d (to_rgb f), frame_recognized env d g f)) (filter (faces_in d) fs)"
  "mark_calls (concat (map (frame_events env d g) fs)) =
     map (\<lambda>f. (d (to_rgb f), frame_recognized env d g f)) (filter (faces_in d) fs)"
  by (induction fs) (simp_all add: read_frame_events split: option.splits)

lemma read_loop [simp]:
  "written_frames (loop_events env d g src) = map (output_frame env d g) (source_frames env src)"
  "read_frames (loop_events env d g src) = source_frames env src"
  "embed_calls (loop_events env d g src) =
     (if g = None then [] else map (\<lambda>f. d (to_rgb f)) (filter (faces_in d) (source_frames env src)))"
  "recognize_calls (loop_events env d g src) =
     (case g of
        None \<Rightarrow> []
      | Some gl \<Rightarrow> map (\<lambda>f. (embed_face env (to_rgb f) (d (to_rgb f)), gl))
                     (filter (faces_in d) (source_frames env src)))"
  "blur_calls (loop_events env d g src) =
     map (\<lambda>f. (d (to_rgb f), frame_recognized env d g f)) (filter (faces_in d) (source_frames env src))"
  "mark_calls (loop_events env d g src) =
     map (\<lambda>f. (d (to_rgb f), frame_recognized env d g f)) (filter (faces_in d) (source_frames env src))"
  by (cases "videos env src"; simp add: loop_events_def source_frames_def read_frames_events;
      simp split: option.splits)+

text \<open>What a run with valid arguments does.\<close>

lemma run_reads:
  assumes "check_arguments src dst = None"
  shows "written_frames (events (fst (anonymize_vid env src dst k u b p))) =
           map (output_frame env (detector env u) (gallery env (detector env u) k)) (source_frames env src)"
    and "read_frames (events (fst (anonymize_vid env src dst k u b p))) = source_frames env src"
    and "embed_calls (events (fst (anonymize_vid env src dst k u b p))) =
           map (\<lambda>p. detector env u (rgb_read env p)) (known_faces env k) @
           (if gallery env (detector env u) k = None then []
            else map (\<lambda>f. detector env u (to_rgb f))
                   (filter (faces_in (detector env u)) (source_frames env src)))"
    and "recognize_calls (events (fst (anonymize_vid env src dst k u b p))) =
           (case gallery env (detector env u) k of
              None \<Rightarrow> []
            | Some gl \<Rightarrow> map (\<lambda>f. (embed_face env (to_rgb f) (detector env u (to_rgb f)), gl))
                           (filter (faces_in (detector env u)) (source_frames env src)))"
    and "blur_calls (events (fst (anonymize_vid env src dst k u b p))) =
           map (\<lambda>f. (detector env u (to_rgb f),
                      frame_recognized env (detector env u) (gallery env (detector env u) k) f))
             (filter (faces_in (detector env u)) (source_frames env src))"
    and "mark_calls (events (fst (anonymize_vid env src dst k u b p))) =
           map (\<lambda>f. (detector env u (to_rgb f),
                      frame_recognized env (detector env u) (gallery env (detector env u) k) f))
             (filter (faces_in (detector env u)) (source_frames env src))"
  using run_events [OF assms, of env k u b p] by auto


lemma more_append [simp]:
  "release_calls (xs @ ys) = release_calls xs @ release_calls ys"
  "warnings (xs @ ys) = warnings xs @ warnings ys"
  "recognition_reports (xs @ ys) = recognition_reports xs @ recognition_reports ys"
  by (simp_all add: release_calls_def warnings_def recognition_reports_def)

lemma more_Nil [simp]:
  "release_calls [] = []" "warnings [] = []" "recognition_reports [] = []"
  by (simp_all add: release_calls_def warnings_def recognition_reports_def)

lemma more_Cons [simp]:
  "release_calls (e # es) = release_call e @ release_calls es"
  "warnings (e # es) = warning e @ warnings es"
  "recognition_reports (e # es) = recognition_report e @ recognition_reports es"
  by (simp_all add: release_calls_def warnings_def recognition_reports_def)

lemma more_prints [simp]:
  "release_calls (map Print ps) = []" "warnings (map Print ps) = []"
  by (induction ps) simp_all

lemma more_opening [simp]:
  "release_calls (opening_events env src dst u) = []"
  "warnings (opening_events env src dst u) = []"
  "recognition_reports (opening_events env src dst u) = []"
  by (simp_all add: opening_events_def)

lemma more_references:
  "release_calls (concat (map (reference_events env d) fs)) = []"
  "warnings (concat (map (reference_events env d) fs)) = []"
  "recognition_reports (concat (map (reference_events env d) fs)) = []"
  by (induction fs) (simp_all add: reference_events_def)

lemma more_gallery [simp]:
  "release_calls (gallery_events env d k) = []"
  "warnings (gallery_events env d k) =
     (if k \<noteq> None \<and> known_faces env k = []
      then [''[WARNING] known_faces_loc contains no faces. JPG files only.''] else [])"
  "recognition_reports (gallery_events env d k) = []"
  by (cases k; simp add: gallery_events_def known_faces_def more_references)+

lemma more_frames_events:
  "release_calls (concat (map (frame_events env d g) fs)) = []"
  "warnings (concat (map (frame_events env d g) fs)) = []"
  "recognition_reports (concat (map (frame_events env d g) fs)) = []"
  by (induction fs) (simp_all add: frame_events_def Let_def split: option.splits)

lemma more_loop [simp]:
  "release_calls (loop_events env d g src) = []"
  "warnings (loop_events env d g src) = []"
  "recognition_reports (loop_events env d g src) = []"
  by (cases "videos env src"; simp add: loop_events_def more_frames_events)+

lemma run_more:
  assumes "check_arguments src dst = None"
  shows "release_calls (events (fst (anonymize_vid env src dst k u b p))) = [ReleaseCapture]"
    and "warnings (events (fst (anonymize_vid env src dst k u b p))) =
           (if k \<noteq> None \<and> known_faces env k = []
            then [''[WARNING] known_faces_loc contains no faces. JPG files only.''] else [])"
  using run_events [OF assms, of env k u b p] by auto

lemma released_reports [simp]:
  "recognition_reports (events (released env src dst k u p)) = []"
  by (simp add: released_events)

lemma started_fields [simp]:
  "recog_times (started env p) = []" "detect_times (started env p) = []"
  "ticks (started env p) = (if p then 1 else 0)"
  by (simp_all add: started_def time_time_def init_state_def)



lemma round_trip: "cvtColor_RGB2BGR (to_rgb f) = f"
proof -
  have "(\<lambda>(r, g, b). (b, g, r)) ((\<lambda>(b, g, r). (r, g, b)) px) = px" for px :: pixel
    by (cases px) simp
  then show ?thesis
    by (simp add: cvtColor_RGB2BGR_def to_rgb_def comp_def)
qed

lemma output_no_faces: "\<not> faces_in d f \<Longrightarrow> output_frame env d g f = f"
  by (simp add: output_frame_def faces_in_def Let_def round_trip)

section \<open>Evaluation in the small world\<close>

lemmas demo_simps = demo_env_def detector_def known_faces_def source_frames_def gallery_def
  reference_encoding_def rglob_jpg_def matches_in_def match_jpg_def joinpath_def faces_in_def
  frame_recognized_def output_frame_def to_rgb_def cvtColor_RGB2BGR_def Let_def

lemmas argument_simps = check_arguments_def extension_def lower_def lower_char_def

lemma demo_arguments: "check_arguments ''in.mp4'' ''out.mp4'' = None"
  by (simp add: argument_simps)

lemma release_calls_run:
  "release_calls (events (fst (anonymize_vid env src dst k u b p))) =
     (if check_arguments src dst = None then [ReleaseCapture] else [])"
proof (cases "check_arguments src dst")
  case None
  then show ?thesis by (simp add: run_more(1))
next
  case (Some e)
  then show ?thesis by (simp add: run_invalid init_state_def)
qed

section \<open>The directory of reference images\<close>

text \<open>The pattern and the tree.\<close>

lemma match_jpg_iff: "match_jpg name \<longleftrightarrow> (\<exists>stem. name = stem @ ''.jpg'')"
proof
  assume "match_jpg name"
  then have "name = take (length name - 4) name @ ''.jpg''"
    by (metis append_take_drop_id match_jpg_def)
  then show "\<exists>stem. name = stem @ ''.jpg''" by blast
next
  assume "\<exists>stem. name = stem @ ''.jpg''"
  then show "match_jpg name" by (auto simp add: match_jpg_def)
qed

lemma matches_in_Cons:
  "matches_in (p, e # es) =
     (if match_jpg (entry_name e) then [joinpath p (entry_name e)] else []) @ matches_in (p, es)"
  by (simp add: matches_in_def)

lemma matches_in_Nil [simp]: "matches_in (p, []) = []"
  by (simp add: matches_in_def)

lemma rglob_entries:
  "set (matches_in (p, [e])) \<union> set (concat (map matches_in (subdirs_entry p e))) =
     set (map fst (filter (\<lambda>x. match_jpg (snd x)) (entries_below_entry p e)))"
  "set (matches_in (p, es)) \<union> set (concat (map matches_in (subdirs p es))) =
     set (map fst (filter (\<lambda>x. match_jpg (snd x)) (entries_below p es)))"
proof (induction p e and p es rule: subdirs_entry_subdirs.induct)
  case (1 p n)
  show ?case by (simp add: matches_in_Cons)
next
  case (2 p n sub)
  then show ?case by (auto simp add: matches_in_Cons)
next
  case (3 p)
  show ?case by simp
next
  case (4 p e es)
  then show ?case by (auto simp add: matches_in_Cons)
qed

lemma rglob_jpg_set:
  "set (rglob_jpg env loc) =
     set (map fst (filter (\<lambda>x. match_jpg (snd x)) (entries_below loc (listdir env loc))))"
  using rglob_entries(2) [of loc "listdir env loc"] by (simp add: rglob_jpg_def)

lemma rglob_jpg_none:
  assumes "\<forall>x \<in> set (entries_below loc (listdir env loc)). \<not> match_jpg (snd x)"
  shows "rglob_jpg env loc = []"
proof -
  have "filter (\<lambda>x. match_jpg (snd x)) (entries_below loc (listdir env loc)) = []"
    using assms by (simp add: filter_empty_conv)
  then have "set (rglob_jpg env loc) = {}"
    by (simp add: rglob_jpg_set)
  then show ?thesis by simp
qed

text \<open>The directory listing is read by \<open>rglob\<close> only.\<close>

lemma listdir_process_frame:
  "process_frame (env\<lparr>listdir := l\<rparr>) d p pfr encs st f = process_frame env d p pfr encs st f"
  by (simp add: process_frame_def detect_step_def recognize_step_def time_time_def Let_def
        cong: option.case_cong prod.case_cong sum.case_cong if_cong)

lemma listdir_video_loop:
  "video_loop (env\<lparr>listdir := l\<rparr>) d p pfr encs st fs = video_loop env d p pfr encs st fs"
  by (induction fs arbitrary: st) (simp_all add: listdir_process_frame)

lemma listdir_summarize:
  "summarize (env\<lparr>listdir := l\<rparr>) t n st = summarize env t n st"
  by (simp add: summarize_def time_time_def)

lemma listdir_released:
  assumes "rglob_jpg (env\<lparr>listdir := l\<rparr>) loc = []" and "rglob_jpg env loc = []"
  shows "released (env\<lparr>listdir := l\<rparr>) src dst (Some loc) u p = released env src dst (Some loc) u p"
  using assms
  by (cases "videos env src")
     (simp_all add: released_def opening_events_def gallery_events_def detector_def known_faces_def
        gallery_def started_def time_time_def listdir_video_loop)

lemma listdir_only_rglob:
  assumes "rglob_jpg (env\<lparr>listdir := l\<rparr>) loc = []" and "rglob_jpg env loc = []"
  shows "anonymize_vid (env\<lparr>listdir := l\<rparr>) src dst (Some loc) u b p =
         anonymize_vid env src dst (Some loc) u b p"
proof (cases "check_arguments src dst")
  case None
  then show ?thesis
    by (simp add: anonymize_vid_valid listdir_released [OF assms] listdir_summarize)
next
  case (Some e)
  then show ?thesis by (simp add: run_invalid)
qed

lemma rglob_jpg_empty_dir: "rglob_jpg (env\<lparr>listdir := \<lambda>p. []\<rparr>) loc = []"
  by (simp add: rglob_jpg_def)

section \<open>The recognition times\<close>




section \<open>Extensions, and the frames written without reference encodings\<close>

lemma split_not_Nil: "split sep s \<noteq> []"
  by (induction s) (auto split: list.splits)

lemma split_no_separator: "sep \<notin> set s \<Longrightarrow> split sep s = [s]"
  by (induction s) auto

lemma split_after_separator:
  "\<exists>w ws. split sep (a @ sep # b) = w # ws \<and> ws \<noteq> [] \<and> last ws = last (split sep b)"
proof (induction a)
  case Nil
  show ?case by (simp add: split_not_Nil)
next
  case (Cons c a)
  then obtain w ws where "split sep (a @ sep # b) = w # ws" "ws \<noteq> []"
    "last ws = last (split sep b)" by blast
  then show ?case by simp
qed

lemma last_split: "last (split sep (a @ sep # b)) = last (split sep b)"
  using split_after_separator [of sep a b] by auto

lemma extension_no_dot: "CHR ''.'' \<notin> set s \<Longrightarrow> extension s = lower s"
  by (simp add: extension_def split_no_separator)

lemma extension_after_dot: "CHR ''.'' \<notin> set b \<Longrightarrow> extension (a @ ''.'' @ b) = lower b"
proof -
  assume "CHR ''.'' \<notin> set b"
  then have "last (split CHR ''.'' (a @ CHR ''.'' # b)) = b"
    by (simp add: last_split split_no_separator)
  then show ?thesis by (simp add: extension_def)
qed


section \<open>The claims\<close>

text \<open>
  C1. The claim: when the directory of reference images holds two or more eligible
  images, the encodings that the matcher is called with hold the descriptors of all of
  them. The loop of lines 69 to 72 assigns \<open>recognized_face_encs\<close> anew for every image,
  so after the loop it holds the descriptors of the last image only. In the directory
  \<open>faces\<close> two images are eligible, with the encodings \<open>[101]\<close> and \<open>[102]\<close>; the one call of
  the matcher gets \<open>[102]\<close>.
\<close>

theorem gallery_keeps_last_image_only:
  "known_faces demo_env (Some ''faces'') = [''faces/a.jpg'', ''faces/more/b.jpg'']
   \<and> map (reference_encoding demo_env (detector demo_env True)) (known_faces demo_env (Some ''faces''))
       = [[101], [102]]
   \<and> recognize_calls (events (fst (anonymize_vid demo_env ''in.mp4'' ''out.mp4'' (Some ''faces'') True 1 False)))
       = [([107], [102])]"
  using run_reads(4) [OF demo_arguments, of demo_env "Some ''faces''" True 1 False]
  by (simp add: demo_simps)

text \<open>
  C2. The claim: every call of \<open>embed_face\<close>, in the loop over the frames and in the loop
  over the reference images, passes at least one region. The loop over the frames calls
  it only under \<open>if len(preds)\<close>; the loop over the reference images passes whatever the
  detector returned. In the directory \<open>blank\<close> the one image has no face, and the first
  call of \<open>embed_face\<close> passes no region.
\<close>

theorem embedder_called_without_regions:
  "known_faces demo_env (Some ''blank'') = [''blank/wall.jpg'']
   \<and> embed_calls (events (fst (anonymize_vid demo_env ''in.mp4'' ''out.mp4'' (Some ''blank'') True 1 False)))
       = [[], [7]]"
  using run_reads(3) [OF demo_arguments, of demo_env "Some ''blank''" True 1 False]
  by (simp add: demo_simps)

text \<open>
  C3. The claim: a run that reaches the end of the stream releases the capture and the
  writer before it returns. Line 115 releases the capture; no line releases the writer.
  The run below reads both frames, returns normally, and its only release is that of the
  capture.
\<close>

theorem writer_never_released:
  "snd (anonymize_vid demo_env ''in.mp4'' ''out.mp4'' None True 1 False) = None
   \<and> read_frames (events (fst (anonymize_vid demo_env ''in.mp4'' ''out.mp4'' None True 1 False)))
       = [[[(1, 2, 3)]], [[(4, 5, 6)]]]
   \<and> release_calls (events (fst (anonymize_vid demo_env ''in.mp4'' ''out.mp4'' None True 1 False)))
       = [ReleaseCapture]"
proof -
  have "snd (anonymize_vid demo_env ''in.mp4'' ''out.mp4'' None True 1 False) = None"
    by (simp add: anonymize_vid_valid [OF demo_arguments])
  moreover have "read_frames (events (fst (anonymize_vid demo_env ''in.mp4'' ''out.mp4'' None True 1 False)))
       = [[[(1, 2, 3)]], [[(4, 5, 6)]]]"
    by (simp add: run_reads(2) [OF demo_arguments] source_frames_def demo_env_def)
  moreover have "release_calls (events (fst (anonymize_vid demo_env ''in.mp4'' ''out.mp4'' None True 1 False)))
       = [ReleaseCapture]"
    by (simp add: release_calls_run demo_arguments)
  ultimately show ?thesis by simp
qed

text \<open>
  C4. The frames written are as many as the frames read and come in the same order:
  the frames read are the frames of the source (none when an assertion fails), and the
  i-th frame written is the output computed from the i-th frame read.
\<close>

theorem frames_written_as_read:
  "read_frames (events (fst (anonymize_vid env src dst k u b p))) =
     (if check_arguments src dst = None then source_frames env src else [])
   \<and> written_frames (events (fst (anonymize_vid env src dst k u b p))) =
       map (output_frame env (detector env u) (gallery env (detector env u) k))
         (read_frames (events (fst (anonymize_vid env src dst k u b p))))
   \<and> length (written_frames (events (fst (anonymize_vid env src dst k u b p)))) =
       length (read_frames (events (fst (anonymize_vid env src dst k u b p))))"
proof (cases "check_arguments src dst")
  case None
  then show ?thesis by (simp add: run_reads(1,2))
next
  case (Some e)
  then show ?thesis by (simp add: run_invalid init_state_def)
qed

text \<open>
  C5, as stated: when the extension of \<open>src\<close>, compared without regard to case, is not
  \<open>mov\<close> or \<open>mp4\<close>, or the extension of \<open>dst\<close> is not \<open>mp4\<close>, the run fails before any
  processing. Line 36 lowers the tested part of \<open>dst\<close> as line 35 lowers that of \<open>src\<close>:
  with \<open>dst = out.MP4\<close> the extension is not \<open>mp4\<close>, and the run reads both frames and
  returns normally. And both lines test the part after the last dot, which is the whole
  name when there is no dot: the names \<open>src = mp4\<close> and \<open>dst = mp4\<close> have no extension at
  all, and the run creates the directory, opens the writer and returns normally.
\<close>

theorem bad_extension_counterexample:
  "last (split CHR ''.'' ''out.MP4'') \<noteq> ''mp4''
   \<and> snd (anonymize_vid demo_env ''in.mp4'' ''out.MP4'' None True 1 False) = None
   \<and> read_frames (events (fst (anonymize_vid demo_env ''in.mp4'' ''out.MP4'' None True 1 False)))
       = [[[(1, 2, 3)]], [[(4, 5, 6)]]]
   \<and> CHR ''.'' \<notin> set ''mp4''
   \<and> snd (anonymize_vid demo_env ''mp4'' ''mp4'' None True 1 False) = None
   \<and> events (fst (anonymize_vid demo_env ''mp4'' ''mp4'' None True 1 False))
       = [LoadRetinanet, OpenCapture ''mp4'', MkdirParents ''mp4'', OpenWriter ''mp4'' 30 (0, 0),
          ReleaseCapture]"
proof -
  have ok: "check_arguments ''in.mp4'' ''out.MP4'' = None"
    by (simp add: argument_simps)
  have bare: "check_arguments ''mp4'' ''mp4'' = None"
    by (simp add: argument_simps)
  have "last (split CHR ''.'' ''out.MP4'') \<noteq> ''mp4''"
    by simp
  moreover have "snd (anonymize_vid demo_env ''in.mp4'' ''out.MP4'' None True 1 False) = None"
    by (simp add: anonymize_vid_valid [OF ok])
  moreover have "read_frames (events (fst (anonymize_vid demo_env ''in.mp4'' ''out.MP4'' None True 1 False)))
       = [[[(1, 2, 3)]], [[(4, 5, 6)]]]"
    by (simp add: run_reads(2) [OF ok] source_frames_def demo_env_def)
  moreover have "snd (anonymize_vid demo_env ''mp4'' ''mp4'' None True 1 False) = None"
    by (simp add: anonymize_vid_valid [OF bare])
  moreover have "events (fst (anonymize_vid demo_env ''mp4'' ''mp4'' None True 1 False))
       = [LoadRetinanet, OpenCapture ''mp4'', MkdirParents ''mp4'', OpenWriter ''mp4'' 30 (0, 0),
          ReleaseCapture]"
    by (simp add: anonymize_vid_valid [OF bare] released_events opening_events_def
          gallery_events_def loop_events_def demo_env_def)
  ultimately show ?thesis by simp
qed

text \<open>
  C5, amended: take of a name the part after its last dot, or the whole name when it has
  no dot, in lower case. When this part of \<open>src\<close> is not \<open>mov\<close> or \<open>mp4\<close>, or this part of
  \<open>dst\<close> is not \<open>mp4\<close>, the run raises an assertion error and has no effect at all: no
  frame is read, no directory and no output file is created. The last two conjuncts say
  that \<open>extension\<close> is this part.
\<close>

theorem bad_extension_fails_first:
  assumes "extension src \<notin> {''mov'', ''mp4''} \<or> extension dst \<noteq> ''mp4''"
  shows "(\<exists>msg. snd (anonymize_vid env src dst k u b p) = Some (AssertionError msg))
       \<and> events (fst (anonymize_vid env src dst k u b p)) = []
       \<and> (CHR ''.'' \<notin> set ext \<longrightarrow> extension (stem @ ''.'' @ ext) = lower ext)
       \<and> (CHR ''.'' \<notin> set name \<longrightarrow> extension name = lower name)"
proof -
  from assms have "\<exists>msg. check_arguments src dst = Some (AssertionError msg)"
    by (auto simp add: check_arguments_def)
  then obtain msg where "check_arguments src dst = Some (AssertionError msg)"
    by blast
  then have "(\<exists>msg. snd (anonymize_vid env src dst k u b p) = Some (AssertionError msg))
       \<and> events (fst (anonymize_vid env src dst k u b p)) = []"
    by (simp add: run_invalid init_state_def)
  then show ?thesis
    using extension_after_dot [of ext stem] extension_no_dot [of name] by blast
qed

theorem bad_extension_fails_first_witness:
  "extension ''clip.avi'' = ''avi''
   \<and> extension ''OUT.MP4'' = ''mp4''
   \<and> extension ''mp4'' = ''mp4''
   \<and> (\<exists>msg. snd (anonymize_vid demo_env ''clip.avi'' ''out.mp4'' None True 1 False)
               = Some (AssertionError msg))
   \<and> events (fst (anonymize_vid demo_env ''clip.avi'' ''out.mp4'' None True 1 False)) = []"
proof -
  have ext: "extension ''clip.avi'' = ''avi''"
    by (simp add: extension_def lower_def lower_char_def)
  then have h: "extension ''clip.avi'' \<notin> {''mov'', ''mp4''} \<or> extension ''out.mp4'' \<noteq> ''mp4''"
    by simp
  note t = bad_extension_fails_first [OF h, of demo_env None True 1 False "''MP4''" "''OUT''" "''mp4''"]
  have upper: "CHR ''.'' \<notin> set ''MP4''" and bare: "CHR ''.'' \<notin> set ''mp4''"
    by simp_all
  have "extension (''OUT'' @ ''.'' @ ''MP4'') = lower ''MP4''"
    using t upper by blast
  then have "extension ''OUT.MP4'' = ''mp4''"
    by (simp add: lower_def lower_char_def)
  moreover have "extension ''mp4'' = lower ''mp4''"
    using t bare by blast
  then have "extension ''mp4'' = ''mp4''"
    by (simp add: lower_def lower_char_def)
  moreover have "(\<exists>msg. snd (anonymize_vid demo_env ''clip.avi'' ''out.mp4'' None True 1 False)
               = Some (AssertionError msg))
   \<and> events (fst (anonymize_vid demo_env ''clip.avi'' ''out.mp4'' None True 1 False)) = []"
    using t by blast
  ultimately show ?thesis
    using ext by blast
qed




text \<open>
  C7. A frame on which the detector finds no face is written exactly as it was read:
  the conversion to RGB and back is the identity, and neither marking nor blurring is
  called for it. So a video without a face in any frame is written frame by frame as
  it was read, with no marking and no blurring at all.
\<close>

theorem frames_without_faces_unchanged:
  assumes "check_arguments src dst = None"
  shows "(\<forall>i < length (source_frames env src).
            detector env u (to_rgb (source_frames env src ! i)) = [] \<longrightarrow>
            written_frames (events (fst (anonymize_vid env src dst k u b p))) ! i =
              source_frames env src ! i)
       \<and> ((\<forall>f \<in> set (source_frames env src). detector env u (to_rgb f) = []) \<longrightarrow>
            written_frames (events (fst (anonymize_vid env src dst k u b p))) = source_frames env src
            \<and> mark_calls (events (fst (anonymize_vid env src dst k u b p))) = []
            \<and> blur_calls (events (fst (anonymize_vid env src dst k u b p))) = [])"
proof -
  have one: "written_frames (events (fst (anonymize_vid env src dst k u b p))) ! i =
               source_frames env src ! i"
    if "i < length (source_frames env src)"
      and "detector env u (to_rgb (source_frames env src ! i)) = []" for i
    using that by (simp add: run_reads(1) [OF assms] output_no_faces faces_in_def)
  have every: "written_frames (events (fst (anonymize_vid env src dst k u b p))) = source_frames env src
            \<and> mark_calls (events (fst (anonymize_vid env src dst k u b p))) = []
            \<and> blur_calls (events (fst (anonymize_vid env src dst k u b p))) = []"
    if "\<forall>f \<in> set (source_frames env src). detector env u (to_rgb f) = []"
  proof -
    have no: "\<forall>f \<in> set (source_frames env src). \<not> faces_in (detector env u) f"
      using that by (simp add: faces_in_def)
    then have "map (output_frame env (detector env u) (gallery env (detector env u) k))
                 (source_frames env src) = source_frames env src"
      by (simp add: map_idI output_no_faces)
    moreover have "filter (faces_in (detector env u)) (source_frames env src) = []"
      using no by (simp add: filter_empty_conv)
    ultimately show ?thesis
      by (simp add: run_reads [OF assms])
  qed
  show ?thesis using one every by blast
qed

theorem frames_without_faces_unchanged_witness:
  "written_frames (events (fst (anonymize_vid demo_env ''in.mp4'' ''out.mp4'' (Some ''faces'') False 1 False)))
     = [[[(1, 2, 3)]], [[(4, 5, 6)]]]
   \<and> blur_calls (events (fst (anonymize_vid demo_env ''in.mp4'' ''out.mp4'' (Some ''faces'') False 1 False))) = []
   \<and> detector demo_env True (to_rgb (source_frames demo_env ''in.mp4'' ! 1)) = []
   \<and> written_frames (events (fst (anonymize_vid demo_env ''in.mp4'' ''out.mp4'' (Some ''faces'') True 1 False))) ! 1
       = [[(4, 5, 6)]]"
proof -
  have frames: "source_frames demo_env ''in.mp4'' = [[[(1, 2, 3)]], [[(4, 5, 6)]]]"
    by (simp add: demo_simps)
  have cascade: "\<forall>f \<in> set (source_frames demo_env ''in.mp4''). detector demo_env False (to_rgb f) = []"
    by (simp add: demo_simps)
  have second: "detector demo_env True (to_rgb (source_frames demo_env ''in.mp4'' ! 1)) = []"
    by (simp add: demo_simps)
  have index: "1 < length (source_frames demo_env ''in.mp4'')"
    by (simp add: frames)
  note quiet = frames_without_faces_unchanged [OF demo_arguments, of demo_env False "Some ''faces''" 1 False]
  note busy = frames_without_faces_unchanged [OF demo_arguments, of demo_env True "Some ''faces''" 1 False]
  have "written_frames (events (fst (anonymize_vid demo_env ''in.mp4'' ''out.mp4'' (Some ''faces'') False 1 False)))
          = source_frames demo_env ''in.mp4''
        \<and> blur_calls (events (fst (anonymize_vid demo_env ''in.mp4'' ''out.mp4'' (Some ''faces'') False 1 False))) = []"
    using quiet cascade by blast
  moreover have "written_frames (events (fst (anonymize_vid demo_env ''in.mp4'' ''out.mp4'' (Some ''faces'') True 1 False))) ! 1
       = source_frames demo_env ''in.mp4'' ! 1"
    using busy index second by blast
  ultimately show ?thesis
    using second by (simp add: frames)
qed



text \<open>
  C9. Two runs that differ in \<open>batch_size\<close> only have the same effects and the same
  result, hence the same frames written.
\<close>

theorem batch_size_unused:
  "anonymize_vid env src dst k u b1 p = anonymize_vid env src dst k u b2 p"
  by (simp add: anonymize_vid_def)

text \<open>
  C10. The directory of reference images is searched at every depth, and the eligible
  paths are those of the entries whose name ends in \<open>.jpg\<close>, in exactly this spelling
  (the pattern looks at the name of an entry, file or subdirectory alike). When no name
  below the directory ends so (names in \<open>.JPG\<close>, \<open>.jpeg\<close> or \<open>.png\<close>, say), the run is
  the very run on an empty directory, and it warns that no faces were found.
\<close>

theorem only_names_ending_jpg_eligible:
  "(match_jpg name \<longleftrightarrow> (\<exists>stem. name = stem @ ''.jpg''))
   \<and> set (rglob_jpg env loc) =
       set (map fst (filter (\<lambda>x. match_jpg (snd x)) (entries_below loc (listdir env loc))))
   \<and> ((\<forall>x \<in> set (entries_below loc (listdir env loc)). \<not> match_jpg (snd x)) \<longrightarrow>
        anonymize_vid env src dst (Some loc) u b p =
          anonymize_vid (env\<lparr>listdir := \<lambda>p. []\<rparr>) src dst (Some loc) u b p
        \<and> warnings (events (fst (anonymize_vid env src dst (Some loc) u b p))) =
            (if check_arguments src dst = None
             then [''[WARNING] known_faces_loc contains no faces. JPG files only.''] else []))"
proof -
  have "anonymize_vid env src dst (Some loc) u b p =
          anonymize_vid (env\<lparr>listdir := \<lambda>p. []\<rparr>) src dst (Some loc) u b p
        \<and> warnings (events (fst (anonymize_vid env src dst (Some loc) u b p))) =
            (if check_arguments src dst = None
             then [''[WARNING] known_faces_loc contains no faces. JPG files only.''] else [])"
    if none: "\<forall>x \<in> set (entries_below loc (listdir env loc)). \<not> match_jpg (snd x)"
  proof -
    have empty: "rglob_jpg env loc = []"
      using none by (rule rglob_jpg_none)
    have "anonymize_vid (env\<lparr>listdir := \<lambda>p. []\<rparr>) src dst (Some loc) u b p =
          anonymize_vid env src dst (Some loc) u b p"
      using rglob_jpg_empty_dir empty by (rule listdir_only_rglob)
    moreover have "warnings (events (fst (anonymize_vid env src dst (Some loc) u b p))) =
            (if check_arguments src dst = None
             then [''[WARNING] known_faces_loc contains no faces. JPG files only.''] else [])"
    proof (cases "check_arguments src dst")
      case None
      then show ?thesis using empty by (simp add: run_more(2) known_faces_def)
    next
      case (Some e)
      then show ?thesis by (simp add: run_invalid init_state_def)
    qed
    ultimately show ?thesis by simp
  qed
  then show ?thesis
    using match_jpg_iff rglob_jpg_set by blast
qed

theorem only_names_ending_jpg_eligible_witness:
  "map snd (entries_below ''others'' (listdir demo_env ''others''))
     = [''a.JPG'', ''b.jpeg'', ''sub'', ''c.png'']
   \<and> anonymize_vid demo_env ''in.mp4'' ''out.mp4'' (Some ''others'') True 1 False =
       anonymize_vid (demo_env\<lparr>listdir := \<lambda>p. []\<rparr>) ''in.mp4'' ''out.mp4'' (Some ''others'') True 1 False
   \<and> warnings (events (fst (anonymize_vid demo_env ''in.mp4'' ''out.mp4'' (Some ''others'') True 1 False)))
       = [''[WARNING] known_faces_loc contains no faces. JPG files only.'']
   \<and> set (rglob_jpg demo_env ''faces'') = {''faces/a.jpg'', ''faces/more/b.jpg''}"
proof -
  have names: "map snd (entries_below ''others'' (listdir demo_env ''others''))
     = [''a.JPG'', ''b.jpeg'', ''sub'', ''c.png'']"
    by (simp add: demo_env_def)
  have none: "\<forall>x \<in> set (entries_below ''others'' (listdir demo_env ''others'')). \<not> match_jpg (snd x)"
    by (simp add: demo_env_def match_jpg_def)
  have faces: "set (map fst (filter (\<lambda>x. match_jpg (snd x))
                 (entries_below ''faces'' (listdir demo_env ''faces''))))
               = {''faces/a.jpg'', ''faces/more/b.jpg''}"
    by (simp add: demo_env_def match_jpg_def joinpath_def)
  note others =
    only_names_ending_jpg_eligible [of "''x.jpg''" demo_env "''others''" "''in.mp4''" "''out.mp4''" True 1 False]
  note faces' =
    only_names_ending_jpg_eligible [of "''x.jpg''" demo_env "''faces''" "''in.mp4''" "''out.mp4''" True 1 False]
  have "anonymize_vid demo_env ''in.mp4'' ''out.mp4'' (Some ''others'') True 1 False =
       anonymize_vid (demo_env\<lparr>listdir := \<lambda>p. []\<rparr>) ''in.mp4'' ''out.mp4'' (Some ''others'') True 1 False"
    using others none by blast
  moreover have "warnings (events (fst (anonymize_vid demo_env ''in.mp4'' ''out.mp4'' (Some ''others'') True 1 False)))
       = [''[WARNING] known_faces_loc contains no faces. JPG files only.'']"
    using others [THEN conjunct2, THEN conjunct2, THEN mp, OF none, THEN conjunct2]
    by (simp add: demo_arguments)
  moreover have "set (rglob_jpg demo_env ''faces'') = {''faces/a.jpg'', ''faces/more/b.jpg''}"
    using faces' faces by simp
  ultimately show ?thesis
    using names by simp
qed

end
